theory Spec2Isabelle
  imports Complex_Main
begin

section \<open>Numbers\<close>

text \<open>
  The program is JavaScript; every quantity is a \<^verbatim>\<open>Number\<close>. The development reads
  them as real numbers: \<open>+\<close>, \<open>*\<close>, \<open>/\<close>, \<open>Math.cos\<close>, \<open>Math.sin\<close>, \<open>Math.sqrt\<close> are the
  exact operations, so rounding, signed zeros, infinities and NaN are outside the model,
  and no theorem here states a rounding tolerance.
  Where the source can divide by zero the theorems carry the condition that excludes it.
\<close>

definition DEG2RAD :: real where
  "DEG2RAD = pi / 180"

definition toRad :: "real \<Rightarrow> real" where
  "toRad deg = (deg * pi) / 180"

text \<open>
  \<open>Math.atan2(y, x)\<close>: the angle of the point \<open>(x, y)\<close> in \<open>(-\<pi>, \<pi>]\<close>, with
  \<open>atan2(0, 0) = 0\<close> as ECMAScript defines it for positive zeros.
\<close>

definition atan2 :: "real \<Rightarrow> real \<Rightarrow> real" where
  "atan2 y x =
     (if 0 < x then arctan (y / x)
      else if x < 0 then (if 0 \<le> y then arctan (y / x) + pi else arctan (y / x) - pi)
      else if 0 < y then pi / 2
      else if y < 0 then - (pi / 2)
      else 0)"

text \<open>
  The remainder operator \<open>a % b\<close> on numbers: \<open>a - b * trunc(a / b)\<close>, the quotient
  truncated towards zero, so the result has the sign of \<open>a\<close>.
\<close>

definition trunc :: "real \<Rightarrow> int" where
  "trunc r = (if 0 \<le> r then \<lfloor>r\<rfloor> else \<lceil>r\<rceil>)"

definition js_rem :: "real \<Rightarrow> real \<Rightarrow> real" where
  "js_rem a b = a - b * of_int (trunc (a / b))"

section \<open>App: the displayed principal angles\<close>

text \<open>
  \<open>getPrincipalAngles\<close> returns \<open>null\<close> (here \<open>None\<close>) for a state inside the guard and
  otherwise the pair \<open>[angle, angle + 90]\<close> mapped through the arrow function
  \<open>a => ((a % 180) + 180) % 180\<close>, named \<open>norm180\<close> here.
\<close>

definition norm180 :: "real \<Rightarrow> real" where
  "norm180 a = js_rem (js_rem a 180 + 180) 180"

definition getPrincipalAngles :: "real \<Rightarrow> real \<Rightarrow> real \<Rightarrow> real list option" where
  "getPrincipalAngles sigmaX sigmaY tauXY =
     (let diff = sigmaX - sigmaY
      in if \<bar>diff\<bar> < 1 / 10 ^ 9 \<and> \<bar>tauXY\<bar> < 1 / 10 ^ 9 then None
         else (let angle = 0.5 * atan2 (2 * tauXY) diff * 180 / pi
               in Some (map norm180 [angle, angle + 90])))"

section \<open>ThetaRangeControl: editing the angle range\<close>

text \<open>
  App owns \<open>thetaMin\<close> and \<open>thetaMax\<close> (initially 0 and 180), here the pair
  \<open>(thetaMin, thetaMax)\<close>; the control's callbacks write one of them. The built-in
  \<open>parseFloat\<close> is a parameter: it maps the entered text to a number, or to \<open>None\<close>
  where JavaScript yields NaN.
\<close>

type_synonym theta_range = "real \<times> real"

definition applyMin :: "(string \<Rightarrow> real option) \<Rightarrow> string \<Rightarrow> theta_range \<Rightarrow> theta_range" where
  "applyMin parseFloat raw bounds =
     (case bounds of (thetaMin, thetaMax) \<Rightarrow>
        (case parseFloat raw of
           None \<Rightarrow> (thetaMin, thetaMax)
         | Some v \<Rightarrow> if v < thetaMax then (v, thetaMax) else (thetaMin, thetaMax)))"

definition applyMax :: "(string \<Rightarrow> real option) \<Rightarrow> string \<Rightarrow> theta_range \<Rightarrow> theta_range" where
  "applyMax parseFloat raw bounds =
     (case bounds of (thetaMin, thetaMax) \<Rightarrow>
        (case parseFloat raw of
           None \<Rightarrow> (thetaMin, thetaMax)
         | Some v \<Rightarrow> if v > thetaMin then (thetaMin, v) else (thetaMin, thetaMax)))"

datatype edit = EditMin string | EditMax string

fun apply_edit :: "(string \<Rightarrow> real option) \<Rightarrow> theta_range \<Rightarrow> edit \<Rightarrow> theta_range" where
  "apply_edit parseFloat bounds (EditMin raw) = applyMin parseFloat raw bounds"
| "apply_edit parseFloat bounds (EditMax raw) = applyMax parseFloat raw bounds"

definition initial_range :: theta_range where
  "initial_range = (0, 180)"

section \<open>StressGraph: sampling, smoothing and markers\<close>

text \<open>
  \<open>computeCurves\<close> pushes one sigma point and one tau point per index \<open>i = 0 .. steps\<close>.
  The loop body is split into the angle of index \<open>i\<close> and the two points at an angle.
  For \<open>steps = 0\<close> JavaScript computes \<open>0 / 0\<close>, which is NaN; the theorems about the
  sampled angles assume \<open>0 < steps\<close> (the only call uses the default 500).
\<close>

record point =
  p_theta :: real
  p_value :: real

record curves =
  sigmaPoints :: "point list"
  tauPoints :: "point list"

definition sample_theta :: "real \<Rightarrow> real \<Rightarrow> nat \<Rightarrow> nat \<Rightarrow> real" where
  "sample_theta thetaMin thetaMax steps i =
     thetaMin + (real i / real steps) * (thetaMax - thetaMin)"

definition sigma_sample :: "real \<Rightarrow> real \<Rightarrow> real \<Rightarrow> real \<Rightarrow> point" where
  "sigma_sample sigmaX sigmaY tauXY theta =
     (let rad = theta * DEG2RAD;
          avg = (sigmaX + sigmaY) / 2;
          diff = (sigmaX - sigmaY) / 2;
          sigma = avg + diff * cos (2 * rad) + tauXY * sin (2 * rad)
      in \<lparr> p_theta = theta, p_value = sigma \<rparr>)"

definition tau_sample :: "real \<Rightarrow> real \<Rightarrow> real \<Rightarrow> real \<Rightarrow> point" where
  "tau_sample sigmaX sigmaY tauXY theta =
     (let rad = theta * DEG2RAD;
          diff = (sigmaX - sigmaY) / 2;
          tau = - diff * sin (2 * rad) + tauXY * cos (2 * rad)
      in \<lparr> p_theta = theta, p_value = tau \<rparr>)"

function computeCurves_loop ::
  "real \<Rightarrow> real \<Rightarrow> real \<Rightarrow> real \<Rightarrow> real \<Rightarrow> nat \<Rightarrow> nat \<Rightarrow> curves \<Rightarrow> curves" where
  "computeCurves_loop sigmaX sigmaY tauXY thetaMin thetaMax steps i acc =
     (if i \<le> steps then
        computeCurves_loop sigmaX sigmaY tauXY thetaMin thetaMax steps (Suc i)
          \<lparr> sigmaPoints = sigmaPoints acc
               @ [sigma_sample sigmaX sigmaY tauXY (sample_theta thetaMin thetaMax steps i)],
            tauPoints = tauPoints acc
               @ [tau_sample sigmaX sigmaY tauXY (sample_theta thetaMin thetaMax steps i)] \<rparr>
      else acc)"
  by pat_completeness auto
termination
  by (relation "measure (\<lambda>(sigmaX, sigmaY, tauXY, thetaMin, thetaMax, steps, i, acc). Suc steps - i)")
     auto

definition computeCurves ::
  "real \<Rightarrow> real \<Rightarrow> real \<Rightarrow> real \<Rightarrow> real \<Rightarrow> nat \<Rightarrow> curves" where
  "computeCurves sigmaX sigmaY tauXY thetaMin thetaMax steps =
     computeCurves_loop sigmaX sigmaY tauXY thetaMin thetaMax steps 0
       \<lparr> sigmaPoints = [], tauPoints = [] \<rparr>"





text \<open>
  The marker loop of \<open>render\<close> walks the adjacent pairs of \<open>tauPoints\<close>. For a pair that
  passes the test it computes \<open>tCross\<close> and \<open>sVal\<close>, which the drawing code then maps to
  screen coordinates; a marker is recorded here as that pair of numbers. Reading
  \<open>sigmaPoints[i]\<close> or \<open>sigmaPoints[i + 1]\<close> past the end of the array gives
  \<open>undefined\<close>, and the property access on it throws a TypeError.
\<close>

record marker =
  tCross :: real
  sVal :: real

datatype js_error = TypeError

definition marker_at :: "point list \<Rightarrow> point list \<Rightarrow> nat \<Rightarrow> marker" where
  "marker_at sigmaPs tauPs i =
     (let a = tauPs ! i;
          b = tauPs ! (i + 1);
          tc = p_theta a + (0 - p_value a) / (p_value b - p_value a) * (p_theta b - p_theta a);
          sv = p_value (sigmaPs ! i)
                 + (tc - p_theta (sigmaPs ! i))
                     / (p_theta (sigmaPs ! (i + 1)) - p_theta (sigmaPs ! i))
                     * (p_value (sigmaPs ! (i + 1)) - p_value (sigmaPs ! i))
      in \<lparr> tCross = tc, sVal = sv \<rparr>)"

function markers_loop ::
  "point list \<Rightarrow> point list \<Rightarrow> nat \<Rightarrow> marker list \<Rightarrow> js_error + marker list" where
  "markers_loop sigmaPs tauPs i markers =
     (if i + 1 < length tauPs then
        (let a = tauPs ! i; b = tauPs ! (i + 1)
         in if p_value a * p_value b \<le> 0 \<and> \<bar>p_value a - p_value b\<bar> > 1 / 10 ^ 9 then
              (if i + 1 < length sigmaPs then
                 markers_loop sigmaPs tauPs (i + 1) (markers @ [marker_at sigmaPs tauPs i])
               else Inl TypeError)
            else markers_loop sigmaPs tauPs (i + 1) markers)
      else Inr markers)"
  by pat_completeness auto
termination
  by (relation "measure (\<lambda>(sigmaPs, tauPs, i, markers). length tauPs - i)") auto

definition principal_markers :: "point list \<Rightarrow> point list \<Rightarrow> js_error + marker list" where
  "principal_markers sigmaPs tauPs = markers_loop sigmaPs tauPs 0 []"

text \<open>
  The vocabulary of the specification for the marker search: an adjacent pair changes
  sign, the interpolation fraction of the pair, and the marker interpolated with that one
  fraction in both coordinates.
\<close>

definition sign_change :: "point list \<Rightarrow> nat \<Rightarrow> bool" where
  "sign_change tauPs i =
     (p_value (tauPs ! i) * p_value (tauPs ! (i + 1)) \<le> 0
      \<and> \<bar>p_value (tauPs ! i) - p_value (tauPs ! (i + 1))\<bar> > 1 / 10 ^ 9)"

definition crossing_fraction :: "point list \<Rightarrow> nat \<Rightarrow> real" where
  "crossing_fraction tauPs i =
     (0 - p_value (tauPs ! i)) / (p_value (tauPs ! (i + 1)) - p_value (tauPs ! i))"

definition interpolated_marker :: "point list \<Rightarrow> point list \<Rightarrow> nat \<Rightarrow> marker" where
  "interpolated_marker sigmaPs tauPs i =
     \<lparr> tCross = p_theta (tauPs ! i)
          + crossing_fraction tauPs i * (p_theta (tauPs ! (i + 1)) - p_theta (tauPs ! i)),
       sVal = p_value (sigmaPs ! i)
          + crossing_fraction tauPs i * (p_value (sigmaPs ! (i + 1)) - p_value (sigmaPs ! i)) \<rparr>"

section \<open>BodyOrientation: smoothing the displayed angle\<close>


section \<open>MohrsCircle: zoom and pan\<close>

text \<open>
  The component keeps \<open>zoom\<close> (initially 1.6), \<open>pan\<close> (initially the origin), the
  \<open>isPanning\<close> flag and the \<open>panStart\<close> reference \<open>{mx, my, px, py}\<close>. The
  \<open>isDragging\<close> state only selects the cursor and is left out. The state updates
  \<open>setZoom(z => ...)\<close> become functions on the viewport.
\<close>

record viewport =
  zoom :: real
  pan :: "real \<times> real"
  isPanning :: bool
  panStart :: "real \<times> real \<times> real \<times> real"

definition initial_viewport :: viewport where
  "initial_viewport =
     \<lparr> zoom = 1.6, pan = (0, 0), isPanning = False, panStart = (0, 0, 0, 0) \<rparr>"

definition handleWheel :: "real \<Rightarrow> viewport \<Rightarrow> viewport" where
  "handleWheel deltaY v =
     (let factor = (if deltaY < 0 then 1.12 else 1 / 1.12)
      in v\<lparr> zoom := min (max (zoom v * factor) 0.4) 8 \<rparr>)"

definition handleMouseDown :: "real \<Rightarrow> real \<Rightarrow> viewport \<Rightarrow> viewport" where
  "handleMouseDown clientX clientY v =
     v\<lparr> isPanning := True, panStart := (clientX, clientY, fst (pan v), snd (pan v)) \<rparr>"

definition handleMouseMove :: "real \<Rightarrow> real \<Rightarrow> viewport \<Rightarrow> viewport" where
  "handleMouseMove clientX clientY v =
     (if \<not> isPanning v then v
      else (case panStart v of (mx, my, px, py) \<Rightarrow>
              v\<lparr> pan := (px + (clientX - mx), py + (clientY - my)) \<rparr>))"

definition handleMouseUp :: "viewport \<Rightarrow> viewport" where
  "handleMouseUp v = v\<lparr> isPanning := False \<rparr>"

definition handleDblClick :: "viewport \<Rightarrow> viewport" where
  "handleDblClick v = v\<lparr> zoom := 1, pan := (0, 0) \<rparr>"

definition zoomInButton :: "viewport \<Rightarrow> viewport" where
  "zoomInButton v = v\<lparr> zoom := min (zoom v * 1.25) 8 \<rparr>"

definition zoomOutButton :: "viewport \<Rightarrow> viewport" where
  "zoomOutButton v = v\<lparr> zoom := max (zoom v / 1.25) 0.4 \<rparr>"

text \<open>
  The events the component reacts to. Leaving the surface runs \<open>handleMouseUp\<close>; the
  reset button and a double click both run \<open>handleDblClick\<close>.
\<close>

datatype event =
    Wheel real
  | MouseDown real real
  | MouseMove real real
  | MouseUp
  | MouseLeave
  | DoubleClick
  | ZoomInClick
  | ZoomOutClick
  | ResetClick

fun handle :: "viewport \<Rightarrow> event \<Rightarrow> viewport" where
  "handle v (Wheel deltaY) = handleWheel deltaY v"
| "handle v (MouseDown x y) = handleMouseDown x y v"
| "handle v (MouseMove x y) = handleMouseMove x y v"
| "handle v MouseUp = handleMouseUp v"
| "handle v MouseLeave = handleMouseUp v"
| "handle v DoubleClick = handleDblClick v"
| "handle v ZoomInClick = zoomInButton v"
| "handle v ZoomOutClick = zoomOutButton v"
| "handle v ResetClick = handleDblClick v"

definition run :: "event list \<Rightarrow> viewport" where
  "run es = foldl handle initial_viewport es"

section \<open>MohrsCircle: the derived values\<close>

text \<open>
  The values \<open>derived\<close> memoises from the props. \<open>thetaP1\<close> is computed for every
  state; the component has no test on it.
\<close>

record derived_values =
  dv_avg :: real
  dv_diff :: real
  dv_R :: real
  dv_sx_prime :: real
  dv_txy_prime :: real
  dv_s1 :: real
  dv_s2 :: real
  dv_thetaP1 :: real
  dv_thetaP2 :: real
  dv_thetaS1 :: real

definition derived :: "real \<Rightarrow> real \<Rightarrow> real \<Rightarrow> real \<Rightarrow> derived_values" where
  "derived sigmaX sigmaY tauXY theta =
     (let avg = (sigmaX + sigmaY) / 2;
          diff = (sigmaX - sigmaY) / 2;
          R = sqrt (diff * diff + tauXY * tauXY);
          angle2 = toRad (2 * theta);
          sx_prime = avg + diff * cos angle2 + tauXY * sin angle2;
          txy_prime = - diff * sin angle2 + tauXY * cos angle2;
          s1 = avg + R;
          s2 = avg - R;
          thetaP1 = (atan2 tauXY diff * 180) / pi / 2;
          thetaP2 = thetaP1 + 90;
          thetaS1 = thetaP1 - 45
      in \<lparr> dv_avg = avg, dv_diff = diff, dv_R = R, dv_sx_prime = sx_prime,
           dv_txy_prime = txy_prime, dv_s1 = s1, dv_s2 = s2, dv_thetaP1 = thetaP1,
           dv_thetaP2 = thetaP2, dv_thetaS1 = thetaS1 \<rparr>)"

declare computeCurves_loop.simps [simp del]
declare markers_loop.simps [simp del]

section \<open>Theorems\<close>

subsection \<open>Remainder and angle normalisation\<close>

lemma atan2_double: "atan2 (2 * y) x = atan2 y (x / 2)"
  by (simp add: atan2_def mult.commute)

lemma js_rem_nonneg:
  assumes "0 < b" "0 \<le> a"
  shows "0 \<le> js_rem a b \<and> js_rem a b < b"
proof -
  have q: "0 \<le> a / b" using assms by simp
  have 1: "of_int \<lfloor>a / b\<rfloor> \<le> a / b" by (rule of_int_floor_le)
  have 2: "a / b < of_int \<lfloor>a / b\<rfloor> + 1" by linarith
  have "b * of_int \<lfloor>a / b\<rfloor> \<le> b * (a / b)"
    using assms 1 by (intro mult_left_mono) simp_all
  with assms have 3: "b * of_int \<lfloor>a / b\<rfloor> \<le> a" by simp
  have "b * (a / b) < b * (of_int \<lfloor>a / b\<rfloor> + 1)"
    using assms 2 by (intro mult_strict_left_mono) simp_all
  with assms have 4: "a < b * (of_int \<lfloor>a / b\<rfloor> + 1)" by simp
  from 3 4 q show ?thesis by (simp add: js_rem_def trunc_def algebra_simps)
qed

lemma js_rem_neg:
  assumes "0 < b" "a < 0"
  shows "- b < js_rem a b \<and> js_rem a b \<le> 0"
proof -
  have q: "\<not> 0 \<le> a / b" using assms by (simp add: field_simps)
  have 1: "a / b \<le> of_int \<lceil>a / b\<rceil>" by (rule le_of_int_ceiling)
  have 2: "of_int \<lceil>a / b\<rceil> - 1 < a / b" by linarith
  have "b * (a / b) \<le> b * of_int \<lceil>a / b\<rceil>"
    using assms 1 by (intro mult_left_mono) simp_all
  with assms have 3: "a \<le> b * of_int \<lceil>a / b\<rceil>" by simp
  have "b * (of_int \<lceil>a / b\<rceil> - 1) < b * (a / b)"
    using assms 2 by (intro mult_strict_left_mono) simp_all
  with assms have 4: "b * (of_int \<lceil>a / b\<rceil> - 1) < a" by simp
  from 3 4 q show ?thesis by (simp add: js_rem_def trunc_def algebra_simps)
qed

lemma js_rem_small: "0 < b \<Longrightarrow> 0 \<le> a \<Longrightarrow> a < b \<Longrightarrow> js_rem a b = a"
proof -
  assume b: "0 < b" and a: "0 \<le> a" "a < b"
  then have "\<lfloor>a / b\<rfloor> = 0" by (simp add: floor_eq_iff)
  with a b show ?thesis by (simp add: js_rem_def trunc_def)
qed

lemma js_rem_small_neg: "0 < b \<Longrightarrow> a < 0 \<Longrightarrow> - b < a \<Longrightarrow> js_rem a b = a"
proof -
  assume b: "0 < b" and a: "a < 0" "- b < a"
  then have "\<lceil>a / b\<rceil> = 0" by (simp add: ceiling_eq_iff field_simps)
  moreover have "\<not> 0 \<le> a / b" using a b by (simp add: field_simps)
  ultimately show ?thesis by (simp add: js_rem_def trunc_def)
qed

lemma js_rem_next: "0 < b \<Longrightarrow> b \<le> a \<Longrightarrow> a < 2 * b \<Longrightarrow> js_rem a b = a - b"
proof -
  assume b: "0 < b" and a: "b \<le> a" "a < 2 * b"
  then have "\<lfloor>a / b\<rfloor> = 1" by (simp add: floor_eq_iff field_simps)
  moreover have "0 \<le> a / b" using a b by simp
  ultimately show ?thesis by (simp add: js_rem_def trunc_def)
qed

lemma norm180_range: "0 \<le> norm180 a \<and> norm180 a < 180"
proof (cases "0 \<le> a")
  case True
  from js_rem_nonneg [of 180 a] True
  have "0 \<le> js_rem a 180 + 180" by simp
  from js_rem_nonneg [OF _ this, of 180] show ?thesis by (simp add: norm180_def)
next
  case False
  then have "a < 0" by simp
  from js_rem_neg [OF _ this, of 180]
  have "0 \<le> js_rem a 180 + 180" by simp
  from js_rem_nonneg [OF _ this, of 180] show ?thesis by (simp add: norm180_def)
qed

lemma norm180_low: "0 \<le> a \<Longrightarrow> a < 180 \<Longrightarrow> norm180 a = a"
  by (simp add: norm180_def js_rem_small js_rem_next)

lemma norm180_neg: "- 180 < a \<Longrightarrow> a < 0 \<Longrightarrow> norm180 a = a + 180"
  by (simp add: norm180_def js_rem_small js_rem_small_neg)

lemma norm180_cong: "\<exists>k::int. norm180 a = a + 180 * of_int k"
proof -
  let ?k1 = "trunc (a / 180)"
  let ?k2 = "trunc ((js_rem a 180 + 180) / 180)"
  have "norm180 a = a + 180 * of_int (1 - ?k1 - ?k2)"
    by (simp add: norm180_def js_rem_def algebra_simps)
  then show ?thesis by blast
qed



subsection \<open>The two principal-angle formulas\<close>

text \<open>
  C2. For every state outside the guard, the circle view's \<open>thetaP1\<close> equals the
  curve view's angle \<open>0.5 * atan2(2 * tauXY, sigmaX - sigmaY) * 180 / pi\<close>, and the first
  angle \<open>getPrincipalAngles\<close> returns differs from \<open>thetaP1\<close> by a whole multiple of 180.
\<close>

theorem principal_angle_paths_agree:
  assumes "\<not> (\<bar>sigmaX - sigmaY\<bar> < 1 / 10 ^ 9 \<and> \<bar>tauXY\<bar> < 1 / 10 ^ 9)"
  shows "dv_thetaP1 (derived sigmaX sigmaY tauXY theta)
           = 0.5 * atan2 (2 * tauXY) (sigmaX - sigmaY) * 180 / pi
         \<and> (\<exists>a1 a2 k. getPrincipalAngles sigmaX sigmaY tauXY = Some [a1, a2]
               \<and> a1 = dv_thetaP1 (derived sigmaX sigmaY tauXY theta) + 180 * of_int (k::int))"
proof -
  let ?angle = "0.5 * atan2 (2 * tauXY) (sigmaX - sigmaY) * 180 / pi"
  have eq: "dv_thetaP1 (derived sigmaX sigmaY tauXY theta) = ?angle"
    by (simp add: derived_def Let_def atan2_double)
  have gpa: "getPrincipalAngles sigmaX sigmaY tauXY = Some [norm180 ?angle, norm180 (?angle + 90)]"
    using assms by (simp add: getPrincipalAngles_def Let_def)
  obtain k :: int where "norm180 ?angle = ?angle + 180 * of_int k"
    using norm180_cong by blast
  with eq gpa show ?thesis by auto
qed

text \<open>
  The pure-shear state \<open>(0, 0, 60)\<close> is outside the guard; both formulas give 45 degrees
  there.
\<close>

theorem principal_angle_paths_agree_witness:
  "\<not> (\<bar>(0::real) - 0\<bar> < 1 / 10 ^ 9 \<and> \<bar>60::real\<bar> < 1 / 10 ^ 9)
   \<and> dv_thetaP1 (derived 0 0 60 0) = 0.5 * atan2 (2 * 60) (0 - 0) * 180 / pi
   \<and> (\<exists>a1 a2 k. getPrincipalAngles 0 0 60 = Some [a1, a2]
         \<and> a1 = dv_thetaP1 (derived 0 0 60 0) + 180 * of_int (k::int))
   \<and> dv_thetaP1 (derived 0 0 60 0) = 45"
proof -
  have h: "\<not> (\<bar>(0::real) - 0\<bar> < 1 / 10 ^ 9 \<and> \<bar>60::real\<bar> < 1 / 10 ^ 9)" by simp
  have v: "dv_thetaP1 (derived 0 0 60 0) = 45"
    by (simp add: derived_def Let_def atan2_def)
  from principal_angle_paths_agree [OF h, where theta = 0] h v show ?thesis by blast
qed

subsection \<open>The degeneracy guard\<close>

text \<open>
  C3, as the code has it. \<open>getPrincipalAngles\<close> returns \<open>null\<close> exactly when
  \<open>|sigmaX - sigmaY| < 1e-9\<close> and \<open>|tauXY| < 1e-9\<close>. The circle view has no such guard:
  \<open>thetaP1\<close> is \<open>atan2(tauXY, (sigmaX - sigmaY) / 2) * 180 / pi / 2\<close> for every state, and
  it is the angle 0 for an exactly hydrostatic state.
\<close>

theorem degeneracy_guard_curve_only:
  "(getPrincipalAngles sigmaX sigmaY tauXY = None)
      = (\<bar>sigmaX - sigmaY\<bar> < 1 / 10 ^ 9 \<and> \<bar>tauXY\<bar> < 1 / 10 ^ 9)
   \<and> dv_thetaP1 (derived sigmaX sigmaY tauXY theta)
      = (atan2 tauXY ((sigmaX - sigmaY) / 2) * 180) / pi / 2
   \<and> dv_thetaP1 (derived sigmaX sigmaX 0 theta) = 0"
  by (simp add: getPrincipalAngles_def derived_def Let_def atan2_def)

text \<open>
  C3 as stated fails at the hydrostatic state \<open>(60, 60, 0)\<close>: the curve view reports
  no angle, the circle view reports the angles 0 and 90.
\<close>

theorem degeneracy_views_disagree:
  "getPrincipalAngles 60 60 0 = None
   \<and> dv_thetaP1 (derived 60 60 0 0) = 0 \<and> dv_thetaP2 (derived 60 60 0 0) = 90"
  by (simp add: getPrincipalAngles_def derived_def Let_def atan2_def)

subsection \<open>The pair of displayed angles\<close>

text \<open>
  C4, as the code has it. For every state outside the guard \<open>getPrincipalAngles\<close> returns
  exactly two angles, each in \<open>[0, 180)\<close>: first the normalised \<open>angle\<close>, second the
  normalised \<open>angle + 90\<close>, in that fixed order and without sorting.
\<close>

theorem principal_angles_pair:
  assumes "\<not> (\<bar>sigmaX - sigmaY\<bar> < 1 / 10 ^ 9 \<and> \<bar>tauXY\<bar> < 1 / 10 ^ 9)"
  shows "\<exists>a1 a2. getPrincipalAngles sigmaX sigmaY tauXY = Some [a1, a2]
           \<and> a1 = norm180 (0.5 * atan2 (2 * tauXY) (sigmaX - sigmaY) * 180 / pi)
           \<and> a2 = norm180 (0.5 * atan2 (2 * tauXY) (sigmaX - sigmaY) * 180 / pi + 90)
           \<and> 0 \<le> a1 \<and> a1 < 180 \<and> 0 \<le> a2 \<and> a2 < 180"
proof -
  let ?angle = "0.5 * atan2 (2 * tauXY) (sigmaX - sigmaY) * 180 / pi"
  have gpa: "getPrincipalAngles sigmaX sigmaY tauXY = Some [norm180 ?angle, norm180 (?angle + 90)]"
    by (simp only: getPrincipalAngles_def Let_def assms if_False list.map)
  from gpa norm180_range [of ?angle] norm180_range [of "?angle + 90"]
  show ?thesis by blast
qed

text \<open>
  The default state \<open>(80, -40, 50)\<close> is outside the guard.
\<close>

theorem principal_angles_pair_witness:
  "\<not> (\<bar>(80::real) - (- 40)\<bar> < 1 / 10 ^ 9 \<and> \<bar>50::real\<bar> < 1 / 10 ^ 9)
   \<and> (\<exists>a1 a2. getPrincipalAngles 80 (- 40) 50 = Some [a1, a2]
         \<and> a1 = norm180 (0.5 * atan2 (2 * 50) (80 - (- 40)) * 180 / pi)
         \<and> a2 = norm180 (0.5 * atan2 (2 * 50) (80 - (- 40)) * 180 / pi + 90)
         \<and> 0 \<le> a1 \<and> a1 < 180 \<and> 0 \<le> a2 \<and> a2 < 180)"
proof -
  have h: "\<not> (\<bar>(80::real) - (- 40)\<bar> < 1 / 10 ^ 9 \<and> \<bar>50::real\<bar> < 1 / 10 ^ 9)" by simp
  from h principal_angles_pair [OF h] show ?thesis by (rule conjI)
qed

text \<open>
  C4 as stated fails for negative shear: at \<open>(0, 0, -60)\<close> the returned pair is
  \<open>[135, 45]\<close>, the larger angle first.
\<close>

theorem principal_angles_unsorted:
  "getPrincipalAngles 0 0 (- 60) = Some [135, 45] \<and> (45::real) < 135"
proof -
  have "norm180 (- 45) = 135" "norm180 45 = 45"
    by (simp_all add: norm180_low norm180_neg)
  then show ?thesis by (simp add: getPrincipalAngles_def atan2_def)
qed

subsection \<open>The sampled curves\<close>

lemma computeCurves_loop_eq:
  "i \<le> Suc steps \<Longrightarrow>
   computeCurves_loop sigmaX sigmaY tauXY thetaMin thetaMax steps i acc =
     \<lparr> sigmaPoints = sigmaPoints acc
          @ map (\<lambda>k. sigma_sample sigmaX sigmaY tauXY (sample_theta thetaMin thetaMax steps k))
              [i..<Suc steps],
       tauPoints = tauPoints acc
          @ map (\<lambda>k. tau_sample sigmaX sigmaY tauXY (sample_theta thetaMin thetaMax steps k))
              [i..<Suc steps] \<rparr>"
proof (induction sigmaX sigmaY tauXY thetaMin thetaMax steps i acc
        rule: computeCurves_loop.induct)
  case (1 sigmaX sigmaY tauXY thetaMin thetaMax steps i acc)
  show ?case
  proof (cases "i \<le> steps")
    case True
    then have up: "[i..<Suc steps] = i # [Suc i..<Suc steps]"
      by (simp add: upt_conv_Cons)
    from True have "Suc i \<le> Suc steps" by simp
    from "1.IH" [OF True this] True show ?thesis
      by (subst computeCurves_loop.simps) (simp add: up del: upt_Suc)
  next
    case False
    with "1.prems" have "i = Suc steps" by simp
    then show ?thesis
      by (subst computeCurves_loop.simps) (simp del: upt_Suc)
  qed
qed

lemma computeCurves_eq:
  "computeCurves sigmaX sigmaY tauXY thetaMin thetaMax steps =
     \<lparr> sigmaPoints =
         map (\<lambda>k. sigma_sample sigmaX sigmaY tauXY (sample_theta thetaMin thetaMax steps k))
           [0..<Suc steps],
       tauPoints =
         map (\<lambda>k. tau_sample sigmaX sigmaY tauXY (sample_theta thetaMin thetaMax steps k))
           [0..<Suc steps] \<rparr>"
  by (simp add: computeCurves_def computeCurves_loop_eq del: upt_Suc)

lemma p_theta_sigma_sample [simp]: "p_theta (sigma_sample sigmaX sigmaY tauXY theta) = theta"
  by (simp add: sigma_sample_def Let_def)

lemma p_theta_tau_sample [simp]: "p_theta (tau_sample sigmaX sigmaY tauXY theta) = theta"
  by (simp add: tau_sample_def Let_def)

lemma sample_theta_step:
  "0 < steps \<Longrightarrow>
   sample_theta thetaMin thetaMax steps (Suc i) - sample_theta thetaMin thetaMax steps i
     = (thetaMax - thetaMin) / real steps"
  by (simp add: sample_theta_def field_simps)

lemma sample_theta_mono:
  assumes "0 < steps" "thetaMin < thetaMax" "i < j"
  shows "sample_theta thetaMin thetaMax steps i < sample_theta thetaMin thetaMax steps j"
proof -
  from assms have "real i / real steps < real j / real steps"
    by (simp add: divide_strict_right_mono)
  with assms(2) have "(real i / real steps) * (thetaMax - thetaMin)
      < (real j / real steps) * (thetaMax - thetaMin)"
    by (intro mult_strict_right_mono) simp_all
  then show ?thesis by (simp add: sample_theta_def)
qed

text \<open>
  C6, as the code has it. \<open>computeCurves\<close> has no range check: for every \<open>thetaMin\<close> and
  \<open>thetaMax\<close> it returns \<open>steps + 1\<close> sigma points and \<open>steps + 1\<close> tau points. Under
  \<open>thetaMin < thetaMax\<close> (and \<open>0 < steps\<close>) the angles are evenly spaced by
  \<open>(thetaMax - thetaMin) / steps\<close>, start at \<open>thetaMin\<close>, end at \<open>thetaMax\<close> and are strictly
  ascending; both sequences share them.
\<close>

theorem computeCurves_samples:
  "length (sigmaPoints (computeCurves sigmaX sigmaY tauXY thetaMin thetaMax steps)) = steps + 1
   \<and> length (tauPoints (computeCurves sigmaX sigmaY tauXY thetaMin thetaMax steps)) = steps + 1
   \<and> (0 < steps \<and> thetaMin < thetaMax \<longrightarrow>
        map p_theta (sigmaPoints (computeCurves sigmaX sigmaY tauXY thetaMin thetaMax steps))
          = map (\<lambda>i. thetaMin + real i * ((thetaMax - thetaMin) / real steps)) [0..<steps + 1]
        \<and> map p_theta (tauPoints (computeCurves sigmaX sigmaY tauXY thetaMin thetaMax steps))
          = map p_theta (sigmaPoints (computeCurves sigmaX sigmaY tauXY thetaMin thetaMax steps))
        \<and> p_theta (hd (sigmaPoints (computeCurves sigmaX sigmaY tauXY thetaMin thetaMax steps)))
          = thetaMin
        \<and> p_theta (last (sigmaPoints (computeCurves sigmaX sigmaY tauXY thetaMin thetaMax steps)))
          = thetaMax
        \<and> sorted_wrt (<)
            (map p_theta (sigmaPoints (computeCurves sigmaX sigmaY tauXY thetaMin thetaMax steps))))"
proof -
  let ?cs = "computeCurves sigmaX sigmaY tauXY thetaMin thetaMax steps"
  have len: "length (sigmaPoints ?cs) = steps + 1" "length (tauPoints ?cs) = steps + 1"
    by (simp_all add: computeCurves_eq)
  have grid: "map p_theta (sigmaPoints ?cs)
           = map (\<lambda>i. thetaMin + real i * ((thetaMax - thetaMin) / real steps)) [0..<steps + 1]"
    by (simp add: computeCurves_eq sample_theta_def o_def)
  have same: "map p_theta (tauPoints ?cs) = map p_theta (sigmaPoints ?cs)"
    by (simp add: computeCurves_eq o_def)
  have first: "p_theta (hd (sigmaPoints ?cs)) = thetaMin"
    by (simp add: computeCurves_eq upt_conv_Cons sample_theta_def del: upt_Suc)
  have final: "p_theta (last (sigmaPoints ?cs)) = thetaMax" if "0 < steps"
    using that by (simp add: computeCurves_eq sample_theta_def)
  have asc: "sorted_wrt (<) (map p_theta (sigmaPoints ?cs))"
    if "0 < steps" "thetaMin < thetaMax"
    using that
    by (simp add: computeCurves_eq o_def sorted_wrt_map sorted_wrt_iff_nth_less
          sample_theta_mono del: upt_Suc)
  from len grid same first final asc show ?thesis by blast
qed

text \<open>
  With \<open>thetaMin = 0\<close>, \<open>thetaMax = 180\<close> and two steps the sampled angles are 0, 90, 180.
\<close>

theorem computeCurves_samples_witness:
  "(0::nat) < 2 \<and> (0::real) < 180
   \<and> length (sigmaPoints (computeCurves 0 0 60 0 180 2)) = 2 + 1
   \<and> map p_theta (sigmaPoints (computeCurves 0 0 60 0 180 2)) = [0, 90, 180]
   \<and> map p_theta (tauPoints (computeCurves 0 0 60 0 180 2)) = [0, 90, 180]
   \<and> p_theta (hd (sigmaPoints (computeCurves 0 0 60 0 180 2))) = 0
   \<and> p_theta (last (sigmaPoints (computeCurves 0 0 60 0 180 2))) = 180
   \<and> sorted_wrt (<) (map p_theta (sigmaPoints (computeCurves 0 0 60 0 180 2)))"
  using computeCurves_samples [of 0 0 60 0 180 2]
  by (simp add: upt_conv_Cons del: upt_Suc)

text \<open>
  C6 as stated fails for a reversed range: with \<open>thetaMin = 180\<close> and \<open>thetaMax = 0\<close> the
  function raises nothing and returns the three samples at 180, 90 and 0.
\<close>

theorem computeCurves_reversed_range:
  "(0::real) \<le> 180
   \<and> map p_theta (sigmaPoints (computeCurves 80 (- 40) 50 180 0 2)) = [180, 90, 0]
   \<and> map p_theta (tauPoints (computeCurves 80 (- 40) 50 180 0 2)) = [180, 90, 0]"
  by (simp add: computeCurves_eq upt_conv_Cons sample_theta_def o_def del: upt_Suc)

subsection \<open>Zero-crossing markers\<close>

lemma interpolate_same_fraction:
  fixes f :: real
  assumes "tb \<noteq> ta"
  shows "sa + (ta + f * (tb - ta) - ta) / (tb - ta) * (sb - sa) = sa + f * (sb - sa)"
  using assms by simp

lemma marker_at_interpolated:
  assumes "p_theta (sigmaPs ! i) = p_theta (tauPs ! i)"
    and "p_theta (sigmaPs ! (i + 1)) = p_theta (tauPs ! (i + 1))"
    and "p_theta (tauPs ! (i + 1)) \<noteq> p_theta (tauPs ! i)"
  shows "marker_at sigmaPs tauPs i = interpolated_marker sigmaPs tauPs i"
  unfolding marker_at_def interpolated_marker_def crossing_fraction_def Let_def assms(1,2)
  by (simp only: interpolate_same_fraction [OF assms(3)])

lemma markers_loop_eq:
  assumes "length sigmaPs = length tauPs"
  shows "markers_loop sigmaPs tauPs i acc =
           Inr (acc @ map (marker_at sigmaPs tauPs)
                        (filter (sign_change tauPs) [i..<length tauPs - 1]))"
proof (induction "length tauPs - i" arbitrary: i acc)
  case 0
  then have "\<not> i + 1 < length tauPs" "[i..<length tauPs - 1] = []" by simp_all
  then show ?case by (subst markers_loop.simps) simp
next
  case (Suc n)
  show ?case
  proof (cases "i + 1 < length tauPs")
    case False
    then have "[i..<length tauPs - 1] = []" by simp
    with False show ?thesis by (subst markers_loop.simps) simp
  next
    case True
    then have up: "[i..<length tauPs - 1] = i # [i + 1..<length tauPs - 1]"
      by (simp add: upt_conv_Cons)
    from Suc.hyps(2) have n: "n = length tauPs - (i + 1)" by simp
    note IH = Suc.hyps(1) [OF n]
    from True assms have inside: "i + 1 < length sigmaPs" by simp
    show ?thesis
    proof (cases "sign_change tauPs i")
      case nsc: False
      then have c: "\<not> (p_value (tauPs ! i) * p_value (tauPs ! (i + 1)) \<le> 0
          \<and> \<bar>p_value (tauPs ! i) - p_value (tauPs ! (i + 1))\<bar> > 1 / 10 ^ 9)"
        by (simp add: sign_change_def)
      show ?thesis
        by (subst markers_loop.simps)
           (simp only: True if_True Let_def c if_False IH up filter.simps nsc)
    next
      case sc: True
      then have c: "p_value (tauPs ! i) * p_value (tauPs ! (i + 1)) \<le> 0
          \<and> \<bar>p_value (tauPs ! i) - p_value (tauPs ! (i + 1))\<bar> > 1 / 10 ^ 9"
        by (simp add: sign_change_def)
      show ?thesis
        by (subst markers_loop.simps)
           (simp only: True if_True Let_def c inside IH up filter.simps sc list.map
              append_Cons append_Nil append_assoc simp_thms)
    qed
  qed
qed

lemma shared_grid_nth:
  assumes "length sigmaPs = length tauPs"
    and "map p_theta sigmaPs = map p_theta tauPs"
    and "distinct_adj (map p_theta tauPs)"
    and "i + 1 < length tauPs"
  shows "marker_at sigmaPs tauPs i = interpolated_marker sigmaPs tauPs i"
proof -
  have "map p_theta sigmaPs ! i = map p_theta tauPs ! i"
       "map p_theta sigmaPs ! (i + 1) = map p_theta tauPs ! (i + 1)"
    by (simp_all only: assms(2))
  with assms(1,4) have 1: "p_theta (sigmaPs ! i) = p_theta (tauPs ! i)"
    and 2: "p_theta (sigmaPs ! (i + 1)) = p_theta (tauPs ! (i + 1))"
    by simp_all
  from assms(3,4) have "map p_theta tauPs ! i \<noteq> map p_theta tauPs ! Suc i"
    by (simp add: distinct_adj_conv_nth)
  with assms(4) have 3: "p_theta (tauPs ! (i + 1)) \<noteq> p_theta (tauPs ! i)"
    by simp
  from 1 2 3 show ?thesis by (rule marker_at_interpolated)
qed

lemma computeCurves_shared_grid:
  assumes "0 < steps" "thetaMin \<noteq> thetaMax"
  shows "map p_theta (sigmaPoints (computeCurves sigmaX sigmaY tauXY thetaMin thetaMax steps))
           = map p_theta (tauPoints (computeCurves sigmaX sigmaY tauXY thetaMin thetaMax steps))
         \<and> distinct_adj
             (map p_theta (tauPoints (computeCurves sigmaX sigmaY tauXY thetaMin thetaMax steps)))"
proof -
  have "sample_theta thetaMin thetaMax steps i \<noteq> sample_theta thetaMin thetaMax steps (Suc i)" for i
    using sample_theta_step [OF assms(1), of thetaMin thetaMax i] assms by auto
  then show ?thesis
    by (simp add: computeCurves_eq o_def distinct_adj_conv_nth del: upt_Suc)
qed

lemma computeCurves_pure_shear: "computeCurves 0 0 60 0 180 2 =
   \<lparr> sigmaPoints = [\<lparr>p_theta = 0, p_value = 0\<rparr>, \<lparr>p_theta = 90, p_value = 0\<rparr>, \<lparr>p_theta = 180, p_value = 0\<rparr>],
     tauPoints = [\<lparr>p_theta = 0, p_value = 60\<rparr>, \<lparr>p_theta = 90, p_value = - 60\<rparr>, \<lparr>p_theta = 180, p_value = 60\<rparr>] \<rparr>"
  by (simp add: computeCurves_eq upt_conv_Cons sigma_sample_def tau_sample_def sample_theta_def DEG2RAD_def Let_def del: upt_Suc)

text \<open>
  C5. For a tau sequence and the sigma sequence sampled with it (same length), the search
  never raises and returns, in order, one marker for each adjacent pair whose product is
  at most 0 and whose values differ by more than \<open>1e-9\<close>. When the two sequences share
  their angles and adjacent angles differ, as the sampler produces them, the marker is at
  the interpolated angle \<open>theta_i + f * (theta_(i+1) - theta_i)\<close> with
  \<open>f = (0 - tau_i) / (tau_(i+1) - tau_i)\<close> and carries the sigma value interpolated by the
  same \<open>f\<close>. When no adjacent pair changes sign there is no marker.
\<close>

theorem zero_crossing_markers:
  assumes "length sigmaPs = length tauPs"
  shows "principal_markers sigmaPs tauPs
           = Inr (map (marker_at sigmaPs tauPs)
                    (filter (sign_change tauPs) [0..<length tauPs - 1]))
         \<and> (map p_theta sigmaPs = map p_theta tauPs \<and> distinct_adj (map p_theta tauPs)
              \<longrightarrow> principal_markers sigmaPs tauPs
                    = Inr (map (interpolated_marker sigmaPs tauPs)
                             (filter (sign_change tauPs) [0..<length tauPs - 1])))
         \<and> ((\<forall>i. i + 1 < length tauPs
                 \<longrightarrow> 0 < p_value (tauPs ! i) * p_value (tauPs ! (i + 1)))
              \<longrightarrow> principal_markers sigmaPs tauPs = Inr [])"
proof -
  let ?idx = "filter (sign_change tauPs) [0..<length tauPs - 1]"
  have 1: "principal_markers sigmaPs tauPs = Inr (map (marker_at sigmaPs tauPs) ?idx)"
    by (simp add: principal_markers_def markers_loop_eq [OF assms])
  have 2: "map (marker_at sigmaPs tauPs) ?idx = map (interpolated_marker sigmaPs tauPs) ?idx"
    if "map p_theta sigmaPs = map p_theta tauPs" "distinct_adj (map p_theta tauPs)"
  proof (rule map_cong [OF refl])
    fix i assume "i \<in> set ?idx"
    then have "i + 1 < length tauPs" by (simp add: less_diff_conv)
    with assms that show "marker_at sigmaPs tauPs i = interpolated_marker sigmaPs tauPs i"
      by (rule shared_grid_nth)
  qed
  have 3: "?idx = []"
    if none: "\<forall>i. i + 1 < length tauPs \<longrightarrow> 0 < p_value (tauPs ! i) * p_value (tauPs ! (i + 1))"
  proof -
    have "\<not> sign_change tauPs i" if "i \<in> set [0..<length tauPs - 1]" for i
    proof -
      from that have "i + 1 < length tauPs" by simp
      with none have "0 < p_value (tauPs ! i) * p_value (tauPs ! (i + 1))" by blast
      then show ?thesis by (simp add: sign_change_def)
    qed
    then show ?thesis by (simp add: filter_empty_conv)
  qed
  from 1 2 3 show ?thesis by simp
qed

text \<open>
  Pure shear \<open>(0, 0, 60)\<close> sampled over \<open>[0, 180]\<close> in two steps has tau values 60, -60, 60:
  two crossings, at 45 and 135 degrees, where sigma is 0. A sequence that stays positive
  gives no marker.
\<close>

theorem zero_crossing_markers_witness:
  "length (sigmaPoints (computeCurves 0 0 60 0 180 2))
     = length (tauPoints (computeCurves 0 0 60 0 180 2))
   \<and> principal_markers (sigmaPoints (computeCurves 0 0 60 0 180 2))
        (tauPoints (computeCurves 0 0 60 0 180 2))
       = Inr [\<lparr>tCross = 45, sVal = 0\<rparr>, \<lparr>tCross = 135, sVal = 0\<rparr>]
   \<and> principal_markers [\<lparr>p_theta = 0, p_value = 1\<rparr>, \<lparr>p_theta = 1, p_value = 1\<rparr>]
        [\<lparr>p_theta = 0, p_value = 2\<rparr>, \<lparr>p_theta = 1, p_value = 3\<rparr>] = Inr []"
proof -
  let ?cs = "computeCurves 0 0 60 0 180 2"
  let ?sp = "[\<lparr>p_theta = 0, p_value = 1\<rparr>, \<lparr>p_theta = 1, p_value = 1\<rparr>]"
  let ?tp = "[\<lparr>p_theta = 0, p_value = 2\<rparr>, \<lparr>p_theta = 1, p_value = 3\<rparr>]"
  have len: "length (sigmaPoints ?cs) = length (tauPoints ?cs)"
    by (simp add: computeCurves_pure_shear)
  have grid: "map p_theta (sigmaPoints ?cs) = map p_theta (tauPoints ?cs)
      \<and> distinct_adj (map p_theta (tauPoints ?cs))"
    by (rule computeCurves_shared_grid) simp_all
  from zero_crossing_markers [OF len] grid
  have "principal_markers (sigmaPoints ?cs) (tauPoints ?cs)
          = Inr (map (interpolated_marker (sigmaPoints ?cs) (tauPoints ?cs))
                   (filter (sign_change (tauPoints ?cs)) [0..<length (tauPoints ?cs) - 1]))"
    by blast
  then have a: "principal_markers (sigmaPoints ?cs) (tauPoints ?cs)
          = Inr [\<lparr>tCross = 45, sVal = 0\<rparr>, \<lparr>tCross = 135, sVal = 0\<rparr>]"
    by (simp add: computeCurves_pure_shear upt_conv_Cons sign_change_def
          interpolated_marker_def crossing_fraction_def)
  have len2: "length ?sp = length ?tp" by simp
  have pos: "\<forall>i. i + 1 < length ?tp \<longrightarrow> 0 < p_value (?tp ! i) * p_value (?tp ! (i + 1))"
    by (simp add: less_Suc_eq)
  from zero_crossing_markers [OF len2] pos
  have b: "principal_markers ?sp ?tp = Inr []" by blast
  from len a b show ?thesis by blast
qed

subsection \<open>Smoothing\<close>





subsection \<open>The angle range stays ordered\<close>

lemma applyMin_cases:
  "applyMin pf raw (lo, hi) = (lo, hi) \<or> (\<exists>v. pf raw = Some v \<and> v < hi \<and> applyMin pf raw (lo, hi) = (v, hi))"
  by (simp add: applyMin_def split: option.splits)

lemma applyMax_cases:
  "applyMax pf raw (lo, hi) = (lo, hi) \<or> (\<exists>v. pf raw = Some v \<and> lo < v \<and> applyMax pf raw (lo, hi) = (lo, v))"
  by (simp add: applyMax_def split: option.splits)

lemma apply_edit_ordered:
  "fst r < snd r \<Longrightarrow> fst (apply_edit pf r e) < snd (apply_edit pf r e)"
proof (cases e)
  case (EditMin raw)
  assume "fst r < snd r"
  with EditMin applyMin_cases [of pf raw "fst r" "snd r"] show ?thesis by auto
next
  case (EditMax raw)
  assume "fst r < snd r"
  with EditMax applyMax_cases [of pf raw "fst r" "snd r"] show ?thesis by auto
qed

lemma edits_ordered:
  "fst r < snd r \<Longrightarrow> fst (foldl (apply_edit pf) r es) < snd (foldl (apply_edit pf) r es)"
  by (induction es arbitrary: r) (simp_all add: apply_edit_ordered)

lemma edits_from_initial_ordered:
  "fst (foldl (apply_edit pf) initial_range es) < snd (foldl (apply_edit pf) initial_range es)"
  by (rule edits_ordered) (simp add: initial_range_def)

text \<open>
  C10. With \<open>thetaMin < thetaMax\<close>, either edit leaves \<open>thetaMin < thetaMax\<close>, and so does
  any sequence of edits. \<open>applyMin\<close> never touches \<open>thetaMax\<close> and changes \<open>thetaMin\<close> only
  to a parsed number below \<open>thetaMax\<close>; \<open>applyMax\<close> never touches \<open>thetaMin\<close> and changes
  \<open>thetaMax\<close> only to a parsed number above \<open>thetaMin\<close>; text that does not parse, or
  parses to a number on the wrong side, changes nothing.
\<close>

theorem theta_range_invariant:
  assumes "thetaMin < thetaMax"
  shows "fst (applyMin pf raw (thetaMin, thetaMax)) < snd (applyMin pf raw (thetaMin, thetaMax))
       \<and> fst (applyMax pf raw (thetaMin, thetaMax)) < snd (applyMax pf raw (thetaMin, thetaMax))
       \<and> snd (applyMin pf raw (thetaMin, thetaMax)) = thetaMax
       \<and> fst (applyMax pf raw (thetaMin, thetaMax)) = thetaMin
       \<and> (fst (applyMin pf raw (thetaMin, thetaMax)) \<noteq> thetaMin
            \<longrightarrow> (\<exists>v. pf raw = Some v \<and> v < thetaMax \<and> fst (applyMin pf raw (thetaMin, thetaMax)) = v))
       \<and> (snd (applyMax pf raw (thetaMin, thetaMax)) \<noteq> thetaMax
            \<longrightarrow> (\<exists>v. pf raw = Some v \<and> thetaMin < v \<and> snd (applyMax pf raw (thetaMin, thetaMax)) = v))
       \<and> (pf raw = None \<or> (\<exists>v. pf raw = Some v \<and> thetaMax \<le> v)
            \<longrightarrow> applyMin pf raw (thetaMin, thetaMax) = (thetaMin, thetaMax))
       \<and> (pf raw = None \<or> (\<exists>v. pf raw = Some v \<and> v \<le> thetaMin)
            \<longrightarrow> applyMax pf raw (thetaMin, thetaMax) = (thetaMin, thetaMax))
       \<and> fst (foldl (apply_edit pf) (thetaMin, thetaMax) es)
            < snd (foldl (apply_edit pf) (thetaMin, thetaMax) es)"
proof -
  have "fst (foldl (apply_edit pf) (thetaMin, thetaMax) es)
            < snd (foldl (apply_edit pf) (thetaMin, thetaMax) es)"
    using assms by (intro edits_ordered) simp
  moreover have "fst (applyMin pf raw (thetaMin, thetaMax)) < snd (applyMin pf raw (thetaMin, thetaMax))"
    "fst (applyMax pf raw (thetaMin, thetaMax)) < snd (applyMax pf raw (thetaMin, thetaMax))"
    using assms by (auto simp add: applyMin_def applyMax_def split: option.splits)
  moreover have "snd (applyMin pf raw (thetaMin, thetaMax)) = thetaMax"
     "fst (applyMax pf raw (thetaMin, thetaMax)) = thetaMin"
    by (auto simp add: applyMin_def applyMax_def split: option.splits)
  moreover have "fst (applyMin pf raw (thetaMin, thetaMax)) \<noteq> thetaMin
            \<longrightarrow> (\<exists>v. pf raw = Some v \<and> v < thetaMax \<and> fst (applyMin pf raw (thetaMin, thetaMax)) = v)"
    by (auto simp add: applyMin_def split: option.splits)
  moreover have "snd (applyMax pf raw (thetaMin, thetaMax)) \<noteq> thetaMax
            \<longrightarrow> (\<exists>v. pf raw = Some v \<and> thetaMin < v \<and> snd (applyMax pf raw (thetaMin, thetaMax)) = v)"
    by (auto simp add: applyMax_def split: option.splits)
  moreover have "pf raw = None \<or> (\<exists>v. pf raw = Some v \<and> thetaMax \<le> v)
            \<longrightarrow> applyMin pf raw (thetaMin, thetaMax) = (thetaMin, thetaMax)"
    by (auto simp add: applyMin_def split: option.splits)
  moreover have "pf raw = None \<or> (\<exists>v. pf raw = Some v \<and> v \<le> thetaMin)
            \<longrightarrow> applyMax pf raw (thetaMin, thetaMax) = (thetaMin, thetaMax)"
    by (auto simp add: applyMax_def split: option.splits)
  ultimately show ?thesis by blast
qed

text \<open>
  On the initial range \<open>(0, 180)\<close>, with a parser that reads \<open>90\<close> and \<open>200\<close>: entering
  90 as the minimum is applied, entering 200 as the minimum is refused, entering text is
  refused.
\<close>

theorem theta_range_invariant_witness:
  "(0::real) < 180
   \<and> applyMin (\<lambda>s. if s = ''90'' then Some 90 else if s = ''200'' then Some 200 else None)
        ''90'' (0, 180) = (90, 180)
   \<and> applyMin (\<lambda>s. if s = ''90'' then Some 90 else if s = ''200'' then Some 200 else None)
        ''200'' (0, 180) = (0, 180)
   \<and> applyMax (\<lambda>s. if s = ''90'' then Some 90 else if s = ''200'' then Some 200 else None)
        ''abc'' (0, 180) = (0, 180)
   \<and> fst (foldl
        (apply_edit (\<lambda>s. if s = ''90'' then Some 90 else if s = ''200'' then Some 200 else None))
        (0, 180) [EditMin ''90'', EditMax ''200'', EditMax ''abc''])
      < snd (foldl
        (apply_edit (\<lambda>s. if s = ''90'' then Some 90 else if s = ''200'' then Some 200 else None))
        (0, 180) [EditMin ''90'', EditMax ''200'', EditMax ''abc''])"
proof -
  let ?pf = "\<lambda>s. if s = ''90'' then Some (90::real) else if s = ''200'' then Some 200 else None"
  have h: "(0::real) < 180" by simp
  note t1 = theta_range_invariant [OF h, where pf = ?pf and raw = "''90''"
               and es = "[EditMin ''90'', EditMax ''200'', EditMax ''abc'']"]
  note t2 = theta_range_invariant [OF h, where pf = ?pf and raw = "''200''" and es = "[]"]
  note t3 = theta_range_invariant [OF h, where pf = ?pf and raw = "''abc''" and es = "[]"]
  have a: "applyMin ?pf ''90'' (0, 180) = (90, 180)"
    by (simp add: applyMin_def)
  from t2 have b: "applyMin ?pf ''200'' (0, 180) = (0, 180)" by simp
  from t3 have c: "applyMax ?pf ''abc'' (0, 180) = (0, 180)" by simp
  from t1 have d: "fst (foldl (apply_edit ?pf) (0, 180) [EditMin ''90'', EditMax ''200'', EditMax ''abc''])
      < snd (foldl (apply_edit ?pf) (0, 180) [EditMin ''90'', EditMax ''200'', EditMax ''abc''])"
    by blast
  from h a b c d show ?thesis by blast
qed

subsection \<open>Zoom stays in range\<close>

lemma handle_zoom_range:
  assumes "0.4 \<le> zoom v" "zoom v \<le> 8"
  shows "0.4 \<le> zoom (handle v e) \<and> zoom (handle v e) \<le> 8"
proof (cases e)
  case (Wheel deltaY)
  then show ?thesis by (simp add: handleWheel_def Let_def)
next
  case (MouseDown x y)
  with assms show ?thesis by (simp add: handleMouseDown_def)
next
  case (MouseMove x y)
  with assms show ?thesis
    by (simp add: handleMouseMove_def split: prod.splits)
next
  case MouseUp
  with assms show ?thesis by (simp add: handleMouseUp_def)
next
  case MouseLeave
  with assms show ?thesis by (simp add: handleMouseUp_def)
next
  case DoubleClick
  then show ?thesis by (simp add: handleDblClick_def)
next
  case ZoomInClick
  with assms show ?thesis by (simp add: zoomInButton_def min_def)
next
  case ZoomOutClick
  with assms show ?thesis by (simp add: zoomOutButton_def max_def)
next
  case ResetClick
  then show ?thesis by (simp add: handleDblClick_def)
qed

lemma foldl_handle_zoom_range:
  "0.4 \<le> zoom v \<Longrightarrow> zoom v \<le> 8 \<Longrightarrow>
   0.4 \<le> zoom (foldl handle v es) \<and> zoom (foldl handle v es) \<le> 8"
proof (induction es arbitrary: v)
  case Nil
  then show ?case by simp
next
  case (Cons e es)
  from handle_zoom_range [OF Cons.prems, of e] Cons.IH [of "handle v e"]
  show ?case by simp
qed

text \<open>
  C8. Starting from the initial viewport, after any sequence of events (wheel notches in
  either direction, the zoom buttons, reset, double click, panning) the zoom lies in
  \<open>[0.4, 8]\<close>.
\<close>

theorem zoom_always_in_range:
  "0.4 \<le> zoom (run es) \<and> zoom (run es) \<le> 8"
  unfolding run_def
  by (rule foldl_handle_zoom_range) (simp_all add: initial_viewport_def)

subsection \<open>Reset\<close>

text \<open>
  C9. The reset handler puts the pan back to the origin and sets the zoom to 1, whatever
  the viewport was; the initial zoom is 1.6, so the zoom after a reset is not the
  initial one.
\<close>

theorem reset_zoom_is_one:
  "zoom (handle v ResetClick) = 1 \<and> zoom (handle v DoubleClick) = 1
   \<and> pan (handle v ResetClick) = (0, 0) \<and> pan (handle v DoubleClick) = (0, 0)
   \<and> zoom initial_viewport = 1.6
   \<and> zoom (handle initial_viewport ResetClick) \<noteq> zoom initial_viewport"
  by (simp add: handleDblClick_def initial_viewport_def)

end
